theory Spec2Isabelle
  imports Complex_Main "HOL-Library.Multiset"
begin

section \<open>The leaderboard server (src/server/server.js)\<close>

text \<open>
  The server keeps two MongoDB collections through Mongoose: the players (model
  \<open>User\<close>) and the award log (model \<open>PointHistory\<close>). Four Express routes and
  one start-up callback read and write them. The collections are lists of documents in
  insertion order; every handler takes the state and returns the new state with the
  HTTP response. What a handler receives from outside the program is an explicit
  argument: the request body, the value of \<open>Math.random()\<close>, the clock, and whether
  a store call throws (every route wraps its store calls in \<open>try\<close>/\<open>catch\<close>).
\<close>

subsection \<open>Documents\<close>

text \<open>
  An \<open>ObjectId\<close> is a natural number. Mongoose draws a new one for every document it
  constructs; the counter \<open>next_id\<close> of the state stands for that generator.
\<close>

type_synonym objectId = nat

text \<open>
  Modelled from the spec: \<open>models/User.js\<close> and \<open>models/PointHistory.js\<close> are
  imported by the server but are not among the sources. Section 3 of the specification
  gives the two schemas: a player has an \<open>id\<close>, a required string \<open>username\<close> and
  integer \<open>points\<close> defaulting to 0; an award record has an \<open>id\<close>, the referenced
  player, the integer \<open>pointsAwarded\<close> and a \<open>timestamp\<close> set at creation. The
  field \<open>_id\<close> of the documents is \<open>user_id\<close> and \<open>history_id\<close> here.
  Points are integers; the server adds to them with the addition of Numbers, which is
  \<open>number_add\<close> below.
\<close>

record User =
  user_id :: objectId
  username :: string
  points :: int

record PointHistory =
  history_id :: objectId
  userId :: objectId
  pointsAwarded :: int
  timestamp :: nat

record state =
  users :: "User list"
  history :: "PointHistory list"
  next_id :: objectId

definition empty_state :: state where
  "empty_state = \<lparr>users = [], history = [], next_id = 0\<rparr>"

subsection \<open>Requests, the environment, responses\<close>

text \<open>
  \<open>express.json()\<close> parses the request body into an object: a map from field names
  to JSON values. \<open>JOid n\<close> is the JSON string that Mongoose casts to the
  \<open>ObjectId\<close> \<open>n\<close>.
\<close>

datatype json = JNull | JBool bool | JNum int | JStr string | JOid objectId

type_synonym body = "string \<Rightarrow> json option"

text \<open>
  The environment of one handler run: \<open>random\<close> is the Number \<open>Math.random()\<close>
  returns, \<open>now\<close> the clock \<open>PointHistory\<close> stamps a new record with, and the three
  \<open>_error\<close> fields say whether the query (\<open>find\<close>, \<open>findById\<close>), the
  \<open>save()\<close> of a player and \<open>PointHistory.create\<close> throw, with the message of
  the error thrown.
\<close>

record env =
  random :: real
  now :: nat
  find_error :: "string option"
  save_error :: "string option"
  create_error :: "string option"

text \<open>
  A history record after \<open>.populate('userId', 'username')\<close>: the reference is
  replaced by the \<open>_id\<close> and \<open>username\<close> of the player it names, or by
  \<open>null\<close> when no player has that id.
\<close>

record PopulatedHistory =
  p_history_id :: objectId
  p_userId :: "(objectId \<times> string) option"
  p_pointsAwarded :: int
  p_timestamp :: nat

datatype payload =
    UserList "User list"
  | UserDoc User
  | Claimed int int
  | HistoryList "PopulatedHistory list"
  | Error string

datatype response = Response nat payload

subsection \<open>The arithmetic of Numbers\<close>

text \<open>
  \<open>Math.random() * 10\<close> and \<open>user.points += pointsAwarded\<close> are operations on
  Numbers: the exact result, rounded to the nearest binary64 value, ties to even.
  \<open>binade x\<close> is the exponent \<open>e\<close> of the binary64 interval that holds \<open>x\<close>
  (\<open>2^e \<le> x < 2^(e+1)\<close>, and \<open>-1022\<close> below the normal range), searched
  downwards from 1023; the values of that interval are the multiples of \<open>2^(e-52)\<close>.
  Rounding is symmetric in the sign. The model covers magnitudes below \<open>2^1024\<close>, where
  the product of the draw and the sums of points lie; overflow and NaN are not needed for
  them.
\<close>

fun binade_from :: "nat \<Rightarrow> int \<Rightarrow> real \<Rightarrow> int" where
  "binade_from 0 e x = e"
| "binade_from (Suc n) e x = (if 2 powi e \<le> x then e else binade_from n (e - 1) x)"

definition binade :: "real \<Rightarrow> int" where
  "binade x = binade_from 2045 1023 x"

definition round_even :: "real \<Rightarrow> int" where
  "round_even q =
     (let f = \<lfloor>q\<rfloor>; t = q - of_int f in
      if t < 1/2 then f else if 1/2 < t then f + 1 else if even f then f else f + 1)"

definition binary64 :: "real \<Rightarrow> real" where
  "binary64 x = (let u = 2 powi (binade \<bar>x\<bar> - 52) in of_int (round_even (x / u)) * u)"

text \<open>A real number is a Number when rounding leaves it as it is.\<close>

definition is_binary64 :: "real \<Rightarrow> bool" where
  "is_binary64 x = (binary64 x = x)"

text \<open>
  The sum of two integer Numbers. The rounded sum is again an integer (from \<open>2^52\<close> on
  every binary64 value is one), which the floor reads back. It is the exact sum while
  that is at most \<open>2^53\<close> in magnitude; \<open>2^53 + 1\<close> is the first integer that is
  no Number.
\<close>

definition number_add :: "int \<Rightarrow> int \<Rightarrow> int" where
  "number_add p a = \<lfloor>binary64 (of_int p + of_int a)\<rfloor>"

subsection \<open>The store calls\<close>

text \<open>
  Each store call returns \<open>Inl message\<close> when it throws and \<open>Inr result\<close>
  otherwise. \<open>User.find().sort({ points: -1 })\<close> returns every player, highest
  points first; players with equal points keep their insertion order here.
\<close>

definition User_find_sort :: "string option \<Rightarrow> state \<Rightarrow> string + User list" where
  "User_find_sort err d =
     (case err of
        Some m \<Rightarrow> Inl m
      | None \<Rightarrow> Inr (sort_key (\<lambda>u. - points u) (users d)))"

text \<open>
  \<open>User.findById(v)\<close> first casts \<open>v\<close> to an \<open>ObjectId\<close>, before anything
  is sent to the store. An absent field and \<open>null\<close> are looked up as \<open>_id: null\<close>;
  a string that is no \<open>ObjectId\<close> (\<open>JStr\<close>), a number and a boolean cannot be
  cast, and the call throws a \<open>CastError\<close>. \<open>cast_message\<close> stands for the text
  of that error, which the library words.
\<close>

definition cast_message :: string where
  "cast_message = ''Cast to ObjectId failed''"

definition castObjectId :: "json option \<Rightarrow> string + objectId option" where
  "castObjectId v =
     (case v of
        None \<Rightarrow> Inr None
      | Some JNull \<Rightarrow> Inr None
      | Some (JOid n) \<Rightarrow> Inr (Some n)
      | Some _ \<Rightarrow> Inl cast_message)"

text \<open>
  The query then runs, unless the store throws: it returns the player whose \<open>_id\<close>
  is the one looked up, or \<open>null\<close>; no player has the \<open>_id\<close> \<open>null\<close>.
\<close>

definition User_findById :: "string option \<Rightarrow> json option \<Rightarrow> state \<Rightarrow> string + User option" where
  "User_findById err v d =
     (case castObjectId v of
        Inl m \<Rightarrow> Inl m
      | Inr oid \<Rightarrow>
          (case err of
             Some m \<Rightarrow> Inl m
           | None \<Rightarrow>
               (case oid of
                  None \<Rightarrow> Inr None
                | Some n \<Rightarrow> Inr (find (\<lambda>u. user_id u = n) (users d)))))"

text \<open>
  \<open>user.save()\<close> on a player loaded from the store, after \<open>points\<close> was
  assigned: the stored document with that \<open>_id\<close> gets the new \<open>points\<close>.
\<close>

definition User_save :: "string option \<Rightarrow> User \<Rightarrow> state \<Rightarrow> string + state" where
  "User_save err user d =
     (case err of
        Some m \<Rightarrow> Inl m
      | None \<Rightarrow>
          Inr (d\<lparr>users :=
                 map (\<lambda>u. if user_id u = user_id user then u\<lparr>points := points user\<rparr> else u)
                     (users d)\<rparr>))"

text \<open>
  Modelled from the spec: the schema of \<open>models/User.js\<close>, which is not among the
  sources. \<open>new User({ username: v })\<close> builds a player with a fresh \<open>_id\<close>;
  \<open>username\<close> is a required string (section 3), so a body whose \<open>username\<close> is
  absent or no string is bad input and fails validation (section 7), before anything is
  sent to the store; \<open>points\<close> is not passed and takes its default 0.
  \<open>validation_message\<close> stands for the text of the validation error, which the
  library words. \<open>User_save_new\<close> is the \<open>save()\<close> of the new player.
\<close>

definition validation_message :: string where
  "validation_message = ''User validation failed: username: Path username is required.''"

definition new_User :: "json option \<Rightarrow> state \<Rightarrow> string + User" where
  "new_User v d =
     (case v of
        Some (JStr name) \<Rightarrow> Inr \<lparr>user_id = next_id d, username = name, points = 0\<rparr>
      | _ \<Rightarrow> Inl validation_message)"

definition User_save_new :: "string option \<Rightarrow> User \<Rightarrow> state \<Rightarrow> string + state" where
  "User_save_new err user d =
     (case err of
        Some m \<Rightarrow> Inl m
      | None \<Rightarrow> Inr (d\<lparr>users := users d @ [user], next_id := Suc (next_id d)\<rparr>))"

text \<open>
  \<open>PointHistory.create({ userId, pointsAwarded })\<close>: a new record with a fresh
  \<open>_id\<close> and, by the schema as the spec gives it, the current time as its
  \<open>timestamp\<close>.
\<close>

definition PointHistory_create ::
    "string option \<Rightarrow> nat \<Rightarrow> objectId \<Rightarrow> int \<Rightarrow> state \<Rightarrow> string + state" where
  "PointHistory_create err t uid pts d =
     (case err of
        Some m \<Rightarrow> Inl m
      | None \<Rightarrow>
          Inr (d\<lparr>history := history d @
                   [\<lparr>history_id = next_id d, userId = uid, pointsAwarded = pts, timestamp = t\<rparr>],
                 next_id := Suc (next_id d)\<rparr>))"

definition populate :: "User list \<Rightarrow> PointHistory \<Rightarrow> PopulatedHistory" where
  "populate us h =
     \<lparr>p_history_id = history_id h,
      p_userId = map_option (\<lambda>u. (user_id u, username u)) (find (\<lambda>u. user_id u = userId h) us),
      p_pointsAwarded = pointsAwarded h,
      p_timestamp = timestamp h\<rparr>"

text \<open>
  \<open>PointHistory.find().populate('userId', 'username').sort({ timestamp: -1 })\<close>:
  every record, newest first, each populated.
\<close>

definition PointHistory_find_populate_sort ::
    "string option \<Rightarrow> state \<Rightarrow> string + PopulatedHistory list" where
  "PointHistory_find_populate_sort err d =
     (case err of
        Some m \<Rightarrow> Inl m
      | None \<Rightarrow>
          Inr (map (populate (users d)) (sort_key (\<lambda>h. - int (timestamp h)) (history d))))"

text \<open>
  \<open>User.insertMany(docs)\<close> at start-up: one new player per name, in order, each
  with a fresh \<open>_id\<close> and, by the schema as the spec gives it, the default 0
  points.
\<close>

fun User_insertMany :: "string list \<Rightarrow> state \<Rightarrow> state" where
  "User_insertMany [] d = d"
| "User_insertMany (name # names) d =
     User_insertMany names
       (d\<lparr>users := users d @ [\<lparr>user_id = next_id d, username = name, points = 0\<rparr>],
          next_id := Suc (next_id d)\<rparr>)"

subsection \<open>Start-up seeding\<close>

definition initialUsers :: "string list" where
  "initialUsers =
     [''Rahul'', ''Kamal'', ''Sanak'', ''Amit'', ''Priya'',
      ''Neha'', ''Vikas'', ''Anjali'', ''Rohit'', ''Simran'']"

text \<open>
  The callback of \<open>mongoose.connection.once('open', ...)\<close>. It has no
  \<open>catch\<close>: a store call that throws there ends the callback with an unhandled
  rejection, which is no state of this model.
\<close>

definition on_open :: "state \<Rightarrow> state" where
  "on_open d =
     (let count = length (users d) in
      if count = 0 then User_insertMany initialUsers d else d)"

subsection \<open>The routes\<close>

text \<open>\<open>GET /users\<close>\<close>

definition get_users :: "env \<Rightarrow> state \<Rightarrow> state \<times> response" where
  "get_users e d =
     (case User_find_sort (find_error e) d of
        Inr us \<Rightarrow> (d, Response 200 (UserList us))
      | Inl m \<Rightarrow> (d, Response 500 (Error m)))"

text \<open>\<open>POST /users\<close>: either failure is answered with status 400.\<close>

definition post_users :: "env \<Rightarrow> body \<Rightarrow> state \<Rightarrow> state \<times> response" where
  "post_users e b d =
     (case new_User (b ''username'') d of
        Inl m \<Rightarrow> (d, Response 400 (Error m))
      | Inr user \<Rightarrow>
          (case User_save_new (save_error e) user d of
             Inl m \<Rightarrow> (d, Response 400 (Error m))
           | Inr d' \<Rightarrow> (d', Response 201 (UserDoc user))))"

text \<open>
  \<open>POST /claim-points\<close>. The amount is \<open>Math.floor(Math.random() * 10) + 1\<close>,
  drawn before the lookup; \<open>user.points += pointsAwarded\<close> adds it as a Number. A
  throw after \<open>user.save()\<close> leaves the player updated.
\<close>

definition draw_points :: "real \<Rightarrow> int" where
  "draw_points r = \<lfloor>binary64 (r * 10)\<rfloor> + 1"

definition post_claim_points :: "env \<Rightarrow> body \<Rightarrow> state \<Rightarrow> state \<times> response" where
  "post_claim_points e b d =
     (let awarded = draw_points (random e) in
      case User_findById (find_error e) (b ''userId'') d of
        Inl m \<Rightarrow> (d, Response 500 (Error m))
      | Inr None \<Rightarrow> (d, Response 404 (Error ''User not found''))
      | Inr (Some user0) \<Rightarrow>
          (let user = user0\<lparr>points := number_add (points user0) awarded\<rparr> in
           case User_save (save_error e) user d of
             Inl m \<Rightarrow> (d, Response 500 (Error m))
           | Inr d1 \<Rightarrow>
               (case PointHistory_create (create_error e) (now e) (user_id user) awarded d1 of
                  Inl m \<Rightarrow> (d1, Response 500 (Error m))
                | Inr d2 \<Rightarrow> (d2, Response 200 (Claimed awarded (points user))))))"

text \<open>\<open>GET /point-history\<close>\<close>

definition get_point_history :: "env \<Rightarrow> state \<Rightarrow> state \<times> response" where
  "get_point_history e d =
     (case PointHistory_find_populate_sort (find_error e) d of
        Inr hs \<Rightarrow> (d, Response 200 (HistoryList hs))
      | Inl m \<Rightarrow> (d, Response 500 (Error m)))"

subsection \<open>Sequential executions\<close>

text \<open>
  One event is a run of the start-up callback or of one route; a sequential execution
  is a list of events, each with the environment it ran in.
\<close>

datatype event = Startup | GetUsers | PostUsers body | ClaimPoints body | GetPointHistory

fun exec :: "env \<Rightarrow> event \<Rightarrow> state \<Rightarrow> state" where
  "exec e Startup d = on_open d"
| "exec e GetUsers d = fst (get_users e d)"
| "exec e (PostUsers b) d = fst (post_users e b d)"
| "exec e (ClaimPoints b) d = fst (post_claim_points e b d)"
| "exec e GetPointHistory d = fst (get_point_history e d)"

fun run :: "(env \<times> event) list \<Rightarrow> state \<Rightarrow> state" where
  "run [] d = d"
| "run ((e, ev) # tr) d = run tr (exec e ev d)"

text \<open>
  A claim is torn when it finds the player and saves it, and the insert of the award
  record then throws: the route answers 500 after the first of its two writes.
\<close>

fun torn :: "env \<Rightarrow> event \<Rightarrow> state \<Rightarrow> bool" where
  "torn e (ClaimPoints b) d =
     (case User_findById (find_error e) (b ''userId'') d of
        Inr (Some user) \<Rightarrow> save_error e = None \<and> create_error e \<noteq> None
      | _ \<Rightarrow> False)"
| "torn e ev d = False"

fun untorn :: "(env \<times> event) list \<Rightarrow> state \<Rightarrow> bool" where
  "untorn [] d = True"
| "untorn ((e, ev) # tr) d = (\<not> torn e ev d \<and> untorn tr (exec e ev d))"

text \<open>
  A claim is in range when the sum it forms is at most \<open>2^53\<close> in magnitude, where
  the addition of Numbers is exact.
\<close>

fun in_range :: "env \<Rightarrow> event \<Rightarrow> state \<Rightarrow> bool" where
  "in_range e (ClaimPoints b) d =
     (case User_findById (find_error e) (b ''userId'') d of
        Inr (Some user) \<Rightarrow> \<bar>points user + draw_points (random e)\<bar> \<le> 2 ^ 53
      | _ \<Rightarrow> True)"
| "in_range e ev d = True"

fun all_in_range :: "(env \<times> event) list \<Rightarrow> state \<Rightarrow> bool" where
  "all_in_range [] d = True"
| "all_in_range ((e, ev) # tr) d = (in_range e ev d \<and> all_in_range tr (exec e ev d))"

subsection \<open>The ledger invariant\<close>

text \<open>
  \<open>award_sum hs n\<close> adds up the awards of the records that reference player \<open>n\<close>;
  \<open>points_match\<close> says every player's points are that sum.
\<close>

definition award_sum :: "PointHistory list \<Rightarrow> objectId \<Rightarrow> int" where
  "award_sum hs n = sum_list (map pointsAwarded (filter (\<lambda>h. userId h = n) hs))"

definition points_match :: "state \<Rightarrow> bool" where
  "points_match d = list_all (\<lambda>u. points u = award_sum (history d) (user_id u)) (users d)"

text \<open>
  The identifiers in a store: no two players share an \<open>_id\<close>, and every
  \<open>_id\<close> stored or referenced was drawn before \<open>next_id\<close>.
\<close>

definition ids_fresh :: "state \<Rightarrow> bool" where
  "ids_fresh d =
     (distinct (map user_id (users d))
      \<and> list_all (\<lambda>u. user_id u < next_id d) (users d)
      \<and> list_all (\<lambda>h. userId h < next_id d) (history d))"

subsection \<open>Sample inputs\<close>

text \<open>
  Two environments in which no store call throws, one in which the insert of the award
  record does and one in which the save of a player does; a store with three players and
  the two award records that account for their points, and the same store after a fourth
  player registered; a sequential execution from start-up on. Then an environment whose
  draw is 0, which awards 1 point, and a store whose one player has \<open>2^53\<close> points.
\<close>

definition env0 :: env where
  "env0 = \<lparr>random = 3/8, now = 1000, find_error = None, save_error = None, create_error = None\<rparr>"

definition env1 :: env where
  "env1 = \<lparr>random = 3/8, now = 2000, find_error = None, save_error = None, create_error = None\<rparr>"

definition env_create_fails :: env where
  "env_create_fails =
     \<lparr>random = 3/8, now = 1000, find_error = None, save_error = None,
      create_error = Some ''connection closed''\<rparr>"

definition env_save_fails :: env where
  "env_save_fails =
     \<lparr>random = 3/8, now = 1000, find_error = None, save_error = Some ''connection closed'',
      create_error = None\<rparr>"

definition store3 :: state where
  "store3 =
     \<lparr>users = [\<lparr>user_id = 0, username = ''Rahul'', points = 4\<rparr>,
               \<lparr>user_id = 1, username = ''Kamal'', points = 9\<rparr>,
               \<lparr>user_id = 2, username = ''Sanak'', points = 0\<rparr>],
      history = [\<lparr>history_id = 3, userId = 1, pointsAwarded = 9, timestamp = 10\<rparr>,
                 \<lparr>history_id = 4, userId = 0, pointsAwarded = 4, timestamp = 20\<rparr>],
      next_id = 5\<rparr>"

definition store4 :: state where
  "store4 =
     \<lparr>users = [\<lparr>user_id = 0, username = ''Rahul'', points = 4\<rparr>,
               \<lparr>user_id = 1, username = ''Kamal'', points = 9\<rparr>,
               \<lparr>user_id = 2, username = ''Sanak'', points = 0\<rparr>,
               \<lparr>user_id = 5, username = ''Test'', points = 0\<rparr>],
      history = [\<lparr>history_id = 3, userId = 1, pointsAwarded = 9, timestamp = 10\<rparr>,
                 \<lparr>history_id = 4, userId = 0, pointsAwarded = 4, timestamp = 20\<rparr>],
      next_id = 6\<rparr>"

definition env_draw1 :: env where
  "env_draw1 = \<lparr>random = 0, now = 1000, find_error = None, save_error = None, create_error = None\<rparr>"

definition store_big :: state where
  "store_big =
     \<lparr>users = [\<lparr>user_id = 0, username = ''Rahul'', points = 9007199254740992\<rparr>],
      history = [],
      next_id = 1\<rparr>"

definition trace0 :: "(env \<times> event) list" where
  "trace0 =
     [(env0, Startup),
      (env0, PostUsers [''username'' \<mapsto> JStr ''Test'']),
      (env0, ClaimPoints [''userId'' \<mapsto> JOid 10]),
      (env0, GetUsers),
      (env_save_fails, ClaimPoints [''userId'' \<mapsto> JOid 0]),
      (env0, ClaimPoints [''userId'' \<mapsto> JOid 77]),
      (env0, GetPointHistory),
      (env0, Startup)]"

section \<open>Properties\<close>

subsection \<open>Rounding to binary64\<close>

lemma powi2_mono: "(a::int) \<le> b \<Longrightarrow> (2::real) powi a \<le> 2 powi b"
  by (rule power_int_increasing) auto

lemma powi2_less: "(2::real) powi a < 2 powi b \<Longrightarrow> a < b"
  by (metis powi2_mono not_le)

lemma powi2_split: "(2::real) powi (b + 1) = 2 ^ 53 * 2 powi (b - 52)"
  using power_int_add [of "2::real" 53 "b - 52"] by (simp add: add.commute)

text \<open>The search finds the interval of \<open>x\<close> when it lies in the range searched.\<close>

lemma binade_from_unique:
  "e - int n \<le> k \<Longrightarrow> k \<le> e \<Longrightarrow> 2 powi k \<le> x \<Longrightarrow> x < 2 powi (k + 1) \<Longrightarrow> binade_from n e x = k"
proof (induction n arbitrary: e)
  case 0
  then show ?case by simp
next
  case (Suc n)
  show ?case
  proof (cases "2 powi e \<le> x")
    case True
    with Suc.prems have "(2::real) powi e < 2 powi (k + 1)" by linarith
    then have "e < k + 1" by (rule powi2_less)
    with Suc.prems True show ?thesis by simp
  next
    case False
    with Suc.prems have "(2::real) powi k < 2 powi e" by linarith
    then have "k < e" by (rule powi2_less)
    with Suc.prems False Suc.IH [of "e - 1"] show ?thesis by simp
  qed
qed

lemma binade_eq:
  "2 powi k \<le> x \<Longrightarrow> x < 2 powi (k + 1) \<Longrightarrow> - 1022 \<le> k \<Longrightarrow> k \<le> 1023 \<Longrightarrow> binade x = k"
  unfolding binade_def by (rule binade_from_unique) auto

lemma binade_from_less:
  "x < 2 powi k \<Longrightarrow> e - int n < k \<Longrightarrow> binade_from n e x < k"
proof (induction n arbitrary: e)
  case 0
  then show ?case by simp
next
  case (Suc n)
  show ?case
  proof (cases "2 powi e \<le> x")
    case True
    with Suc.prems have "(2::real) powi e < 2 powi k" by linarith
    then have "e < k" by (rule powi2_less)
    with True show ?thesis by simp
  next
    case False
    with Suc.prems Suc.IH [of "e - 1"] show ?thesis by simp
  qed
qed

lemma binade_from_upper:
  "x < 2 powi (e + 1) \<Longrightarrow> x < 2 powi (binade_from n e x + 1)"
  by (induction n arbitrary: e) auto

text \<open>Rounding to an integer moves a number by at most one half.\<close>

lemma round_even_cases:
  "(round_even q = \<lfloor>q\<rfloor> \<and> q \<le> of_int \<lfloor>q\<rfloor> + 1/2)
   \<or> (round_even q = \<lfloor>q\<rfloor> + 1 \<and> of_int \<lfloor>q\<rfloor> + 1/2 \<le> q)"
proof -
  define t where "t = q - of_int \<lfloor>q\<rfloor>"
  have q: "q = of_int \<lfloor>q\<rfloor> + t" by (simp add: t_def)
  consider "t < 1/2" | "1/2 < t" | "t = 1/2" by linarith
  then show ?thesis
  proof cases
    case 1
    then have "round_even q = \<lfloor>q\<rfloor>" by (simp add: round_even_def Let_def t_def)
    with 1 q show ?thesis by linarith
  next
    case 2
    then have "round_even q = \<lfloor>q\<rfloor> + 1" by (simp add: round_even_def Let_def t_def)
    with 2 q show ?thesis by linarith
  next
    case 3
    then have "round_even q = (if even \<lfloor>q\<rfloor> then \<lfloor>q\<rfloor> else \<lfloor>q\<rfloor> + 1)"
      by (simp add: round_even_def Let_def t_def)
    with 3 q show ?thesis by (cases "even \<lfloor>q\<rfloor>") simp_all
  qed
qed

lemma round_even_le: "q \<le> of_int m \<Longrightarrow> round_even q \<le> m"
proof -
  assume a: "q \<le> of_int m"
  from round_even_cases [of q] show ?thesis
  proof
    assume 1: "round_even q = \<lfloor>q\<rfloor> \<and> q \<le> of_int \<lfloor>q\<rfloor> + 1/2"
    from a have "\<lfloor>q\<rfloor> \<le> m" by (simp add: floor_le_iff)
    with 1 show ?thesis by simp
  next
    assume 2: "round_even q = \<lfloor>q\<rfloor> + 1 \<and> of_int \<lfloor>q\<rfloor> + 1/2 \<le> q"
    with a have "(of_int \<lfloor>q\<rfloor> :: real) < of_int m" by linarith
    then have "\<lfloor>q\<rfloor> < m" by (simp only: of_int_less_iff)
    with 2 show ?thesis by simp
  qed
qed

lemma round_even_nonneg: "0 \<le> q \<Longrightarrow> 0 \<le> round_even q"
  using round_even_cases [of q] by auto

lemma round_even_below: "q \<le> of_int m - 5/8 \<Longrightarrow> round_even q \<le> m - 1"
proof -
  assume a: "q \<le> of_int m - 5/8"
  from round_even_cases [of q] show ?thesis
  proof
    assume 1: "round_even q = \<lfloor>q\<rfloor> \<and> q \<le> of_int \<lfloor>q\<rfloor> + 1/2"
    from a have "q < of_int m" by linarith
    then have "\<lfloor>q\<rfloor> < m" by (simp add: floor_less_iff)
    with 1 show ?thesis by simp
  next
    assume 2: "round_even q = \<lfloor>q\<rfloor> + 1 \<and> of_int \<lfloor>q\<rfloor> + 1/2 \<le> q"
    with a have "(of_int \<lfloor>q\<rfloor> :: real) < of_int (m - 1)" by simp
    then have "\<lfloor>q\<rfloor> < m - 1" by (simp only: of_int_less_iff)
    with 2 show ?thesis by simp
  qed
qed

lemma binary64_nonneg: "0 \<le> x \<Longrightarrow> 0 \<le> binary64 x"
  by (simp add: binary64_def Let_def round_even_nonneg)

text \<open>Below 8 a product rounds to at most 8: rounding never leaves the interval's closure.\<close>

lemma binary64_below_8:
  assumes "0 \<le> x" "x < 8"
  shows "binary64 x \<le> 8"
proof -
  define b where "b = binade x"
  define u :: real where "u = 2 powi (b - 52)"
  have u: "0 < u" by (simp add: u_def)
  have x3: "x < 2 powi 3" using assms by simp
  then have "b < 3" unfolding b_def binade_def by (rule binade_from_less) simp
  have "(2::real) powi 3 \<le> 2 powi (1023 + 1)" by (intro powi2_mono) simp
  with x3 have "x < 2 powi (1023 + 1)" by linarith
  then have "x < 2 powi (b + 1)" unfolding b_def binade_def by (rule binade_from_upper)
  also have "\<dots> = 2 ^ 53 * u" unfolding u_def by (rule powi2_split)
  finally have "x / u < 2 ^ 53" using u by (simp add: field_simps)
  then have "x / u \<le> of_int (2 ^ 53)" by simp
  then have "round_even (x / u) \<le> 2 ^ 53" by (rule round_even_le)
  then have "(of_int (round_even (x / u)) :: real) \<le> of_int (2 ^ 53)"
    by (simp only: of_int_le_iff)
  then have "of_int (round_even (x / u)) * u \<le> 2 ^ 53 * u" using u by simp
  then have "binary64 x \<le> 2 ^ 53 * u" using assms(1)
    by (simp add: binary64_def Let_def b_def [symmetric] u_def [symmetric])
  also have "\<dots> = 2 powi (b + 1)" unfolding u_def by (rule powi2_split [symmetric])
  also have "\<dots> \<le> 2 powi 3" using \<open>b < 3\<close> by (intro powi2_mono) simp
  finally show ?thesis by simp
qed

text \<open>
  Between 8 and 16 the binary64 values are \<open>2^-49\<close> apart. The largest product of
  a draw is \<open>10 - 10 / 2^53\<close>, five eighths of a step below 10: it rounds down.
\<close>

lemma binary64_below_10:
  assumes "8 \<le> x" "x \<le> 10 - 10 / 2 ^ 53"
  shows "binary64 x < 10"
proof -
  have "binade x = 3" using assms by (intro binade_eq) auto
  moreover have "\<bar>x\<bar> = x" using assms by simp
  ultimately have b: "binary64 x = of_int (round_even (x * 2 ^ 49)) / 2 ^ 49"
    by (simp add: binary64_def Let_def power_int_minus field_simps)
  have "x * 2 ^ 49 \<le> of_int (10 * 2 ^ 49) - 5 / 8" using assms by simp
  then have "round_even (x * 2 ^ 49) \<le> 10 * 2 ^ 49 - 1" by (rule round_even_below)
  then have "(of_int (round_even (x * 2 ^ 49)) :: real) \<le> of_int (10 * 2 ^ 49 - 1)"
    by (simp only: of_int_le_iff)
  then show ?thesis unfolding b by (simp add: field_simps)
qed

text \<open>The largest Number below 1 is \<open>1 - 2^-53\<close>.\<close>

lemma binary64_below_1:
  assumes "is_binary64 r" "0 \<le> r" "r < 1"
  shows "r \<le> 1 - 1 / 2 ^ 53"
proof -
  define b where "b = binade r"
  have "r < 2 powi 0" using assms by simp
  then have b0: "b < 0" unfolding b_def binade_def by (rule binade_from_less) simp
  have "(1::real) \<le> 2 powi (1023 + 1)" using powi2_mono [of 0 "1023 + 1"] by simp
  with assms have "r < 2 powi (1023 + 1)" by linarith
  then have up: "r < 2 powi (b + 1)" unfolding b_def binade_def by (rule binade_from_upper)
  show ?thesis
  proof (cases "b = - 1")
    case True
    define m where "m = round_even (r * 2 ^ 53)"
    from assms True have r: "r = of_int m / 2 ^ 53"
      by (simp add: is_binary64_def binary64_def Let_def b_def [symmetric] m_def
          power_int_minus field_simps)
    with assms have "(of_int m :: real) < of_int (2 ^ 53)" by (simp add: field_simps)
    then have "m < 2 ^ 53" by (simp only: of_int_less_iff)
    then have "m \<le> 2 ^ 53 - 1" by simp
    then have "(of_int m :: real) \<le> of_int (2 ^ 53 - 1)" by (simp only: of_int_le_iff)
    with r show ?thesis by (simp add: field_simps)
  next
    case False
    with b0 have "(2::real) powi (b + 1) \<le> 2 powi (- 1)" by (intro powi2_mono) simp
    with up have "r < 1 / 2" by (simp add: power_int_minus)
    then show ?thesis by simp
  qed
qed

lemma draw_points_range:
  assumes "is_binary64 r" "0 \<le> r" "r < 1"
  shows "1 \<le> draw_points r \<and> draw_points r \<le> 10"
proof -
  from assms have le: "r \<le> 1 - 1 / 2 ^ 53" by (intro binary64_below_1)
  have nn: "0 \<le> binary64 (r * 10)" using assms by (intro binary64_nonneg) simp
  have "binary64 (r * 10) < 10"
  proof (cases "r * 10 < 8")
    case True
    with assms have "binary64 (r * 10) \<le> 8" by (intro binary64_below_8) simp_all
    then show ?thesis by simp
  next
    case False
    with le show ?thesis by (intro binary64_below_10) simp_all
  qed
  then have "\<lfloor>binary64 (r * 10)\<rfloor> < 10" by (simp add: floor_less_iff)
  moreover from nn have "0 \<le> \<lfloor>binary64 (r * 10)\<rfloor>" by simp
  ultimately show ?thesis by (simp add: draw_points_def)
qed

text \<open>The sample draw \<open>3/8\<close> is a Number, and it awards 4 points.\<close>

lemma is_binary64_sample: "is_binary64 (3/8)"
proof -
  have "binade (3/8) = - 2" by (rule binade_eq) (simp_all add: power_int_minus)
  then show ?thesis
    by (simp add: is_binary64_def binary64_def Let_def round_even_def power_int_minus)
qed

lemma draw_points_sample: "draw_points (3/8) = 4"
proof -
  have "binade (3/8 * 10) = 1" by (rule binade_eq) (simp_all add: power_int_minus)
  then show ?thesis
    by (simp add: draw_points_def binary64_def Let_def round_even_def power_int_minus)
qed


text \<open>The draw 0 awards 1 point.\<close>

lemma draw_points_zero: "draw_points 0 = 1"
  by (simp add: draw_points_def binary64_def round_even_def)

subsection \<open>Adding Numbers\<close>

lemma round_even_of_int: "round_even (of_int m) = m"
  by (simp add: round_even_def)

text \<open>A number that is a whole multiple of the step of its interval is a Number.\<close>

lemma binary64_multiple:
  assumes "x / 2 powi (binade \<bar>x\<bar> - 52) = of_int m"
  shows "binary64 x = x"
proof -
  have "(2::real) powi (binade \<bar>x\<bar> - 52) \<noteq> 0" by simp
  with assms have "x = of_int m * 2 powi (binade \<bar>x\<bar> - 52)"
    by (simp add: field_simps)
  with assms show ?thesis
    by (simp add: binary64_def Let_def round_even_of_int del: power_int_diff)
qed

lemma binade_le_53:
  assumes "\<bar>x\<bar> \<le> 2 ^ 53"
  shows "binade \<bar>x\<bar> \<le> 53"
proof -
  from assms have "\<bar>x\<bar> < 2 powi 54" by simp
  then have "binade \<bar>x\<bar> < 54" unfolding binade_def by (rule binade_from_less) simp
  then show ?thesis by simp
qed

lemma binade_from_lower:
  "2 powi (e - int n) \<le> x \<Longrightarrow> 2 powi (binade_from n e x) \<le> x"
proof (induction n arbitrary: e)
  case 0
  then show ?case by simp
next
  case (Suc n)
  from Suc.prems have "2 powi (e - 1 - int n) \<le> x" by (simp add: algebra_simps)
  with Suc.IH [of "e - 1"] show ?case by simp
qed

text \<open>Every integer of magnitude at most \<open>2^53\<close> is a Number.\<close>

lemma binary64_of_int:
  assumes "\<bar>n\<bar> \<le> 2 ^ 53"
  shows "binary64 (of_int n) = of_int n"
proof -
  define x :: real where "x = of_int n"
  define b where "b = binade \<bar>x\<bar>"
  from assms have "\<bar>x\<bar> \<le> of_int (2 ^ 53)" unfolding x_def
    by (simp only: of_int_abs [symmetric] of_int_le_iff)
  then have ax: "\<bar>x\<bar> \<le> 2 ^ 53" by simp
  then have b53: "b \<le> 53" unfolding b_def by (rule binade_le_53)
  have "\<exists>m. x / 2 powi (b - 52) = of_int m"
  proof (cases "b \<le> 52")
    case True
    define k where "k = nat (52 - b)"
    from True have "b - 52 = - int k" by (simp add: k_def)
    then have "(2::real) powi (b - 52) = inverse (2 ^ k)"
      by (simp only: power_int_minus power_int_of_nat)
    then have "x / 2 powi (b - 52) = of_int (n * 2 ^ k)"
      by (simp add: x_def divide_inverse)
    then show ?thesis ..
  next
    case False
    with b53 have b: "b = 53" by simp
    have "n \<noteq> 0"
    proof
      assume "n = 0"
      then have "\<bar>x\<bar> < 2 powi 0" by (simp add: x_def)
      then have "binade \<bar>x\<bar> < 0" unfolding binade_def by (rule binade_from_less) simp
      with b show False by (simp add: b_def)
    qed
    then have "1 \<le> \<bar>n\<bar>" by simp
    then have "(of_int 1 :: real) \<le> of_int \<bar>n\<bar>" by (simp only: of_int_le_iff)
    then have "(1::real) \<le> \<bar>x\<bar>" by (simp add: x_def)
    moreover have "(2::real) powi (1023 - int 2045) \<le> 1"
      using powi2_mono [of "1023 - int 2045" 0] by simp
    ultimately have "(2::real) powi (1023 - int 2045) \<le> \<bar>x\<bar>" by linarith
    then have "2 powi b \<le> \<bar>x\<bar>" unfolding b_def binade_def by (rule binade_from_lower)
    with b ax have "\<bar>x\<bar> = 2 ^ 53" by simp
    then have "x = 2 ^ 53 \<or> x = - (2 ^ 53)" by linarith
    then have "x / 2 powi (b - 52) = of_int (2 ^ 52) \<or> x / 2 powi (b - 52) = of_int (- (2 ^ 52))"
      by (auto simp: b)
    then show ?thesis by blast
  qed
  then obtain m where "x / 2 powi (binade \<bar>x\<bar> - 52) = of_int m" unfolding b_def ..
  then have "binary64 x = x" by (rule binary64_multiple)
  then show ?thesis by (simp add: x_def)
qed

lemma number_add_exact: "\<bar>p + a\<bar> \<le> 2 ^ 53 \<Longrightarrow> number_add p a = p + a"
  using binary64_of_int [of "p + a"] by (simp add: number_add_def)

text \<open>\<open>2^53 + 1\<close> lies halfway between two Numbers and rounds to the even one.\<close>

lemma number_add_inexact: "number_add 9007199254740992 1 = 9007199254740992"
proof -
  have "binade \<bar>9007199254740993\<bar> = 53" by (rule binade_eq) simp_all
  then show ?thesis
    by (simp add: number_add_def binary64_def Let_def round_even_def)
qed

subsection \<open>Lookups and sorting\<close>

lemma sorted_desc_sort_key:
  fixes f :: "'a \<Rightarrow> int"
  shows "sorted_wrt (\<lambda>a b. f b \<le> f a) (sort_key (\<lambda>x. - f x) xs)"
proof -
  have "sorted (map (\<lambda>x. - f x) (sort_key (\<lambda>x. - f x) xs))" by (rule sorted_sort_key)
  then show ?thesis by (simp add: sorted_map)
qed

lemma find_distinct_key:
  "distinct (map f xs) \<Longrightarrow> x \<in> set xs \<Longrightarrow> find (\<lambda>y. f y = f x) xs = Some x"
  by (induction xs) (auto simp: image_iff)

lemma find_Some_key: "find (\<lambda>v. user_id v = n) us = Some u \<Longrightarrow> user_id u = n \<and> u \<in> set us"
  by (induction us) (auto split: if_splits)

lemma find_map_points:
  "find (\<lambda>v. user_id v = n) us = Some u \<Longrightarrow>
   find (\<lambda>v. user_id v = n) (map (\<lambda>v. if user_id v = n then v\<lparr>points := p\<rparr> else v) us)
     = Some (u\<lparr>points := p\<rparr>)"
  by (induction us) (auto split: if_splits)

lemma findById_Some:
  "User_findById err v d = Inr (Some u) \<Longrightarrow>
   err = None \<and> v = Some (JOid (user_id u)) \<and> find (\<lambda>w. user_id w = user_id u) (users d) = Some u"
  by (auto simp: User_findById_def castObjectId_def
      split: option.splits json.splits sum.splits dest: find_Some_key)

lemma populate_found:
  "distinct (map user_id us) \<Longrightarrow> u \<in> set us \<Longrightarrow> user_id u = userId h \<Longrightarrow>
   p_userId (populate us h) = Some (user_id u, username u)"
  using find_distinct_key [of user_id us u] by (simp add: populate_def)

lemma fresh_next_id: "ids_fresh d \<Longrightarrow> u \<in> set (users d) \<Longrightarrow> user_id u < next_id d"
  by (auto simp: ids_fresh_def list_all_iff)

subsection \<open>The leaderboard\<close>

text \<open>
  Claim C4. For every store state, \<open>GET /users\<close> writes nothing, and when the query
  completes the players it returns are all the players of the store, each once, ordered
  by points from highest to lowest.
\<close>

theorem get_users_sorted:
  "fst (get_users e d) = d \<and>
   (find_error e = None \<longrightarrow>
     (\<exists>us. snd (get_users e d) = Response 200 (UserList us)
        \<and> mset us = mset (users d)
        \<and> sorted_wrt (\<lambda>a b. points b \<le> points a) us))"
  by (simp add: get_users_def User_find_sort_def sorted_desc_sort_key split: option.splits)

theorem get_users_sorted_witness:
  "find_error env0 = None
   \<and> get_users env0 store3 =
       (store3, Response 200 (UserList
          [\<lparr>user_id = 1, username = ''Kamal'', points = 9\<rparr>,
           \<lparr>user_id = 0, username = ''Rahul'', points = 4\<rparr>,
           \<lparr>user_id = 2, username = ''Sanak'', points = 0\<rparr>]))
   \<and> fst (get_users env0 store3) = store3
   \<and> (\<exists>us. snd (get_users env0 store3) = Response 200 (UserList us)
        \<and> mset us = mset (users store3)
        \<and> sorted_wrt (\<lambda>a b. points b \<le> points a) us)"
  using get_users_sorted [of env0 store3]
  by (simp add: env0_def store3_def get_users_def User_find_sort_def)

subsection \<open>The award history\<close>

text \<open>
  Claim C5. For every store state, \<open>GET /point-history\<close> writes nothing, and when
  the query completes it returns all award records (\<open>hs0\<close> is a rearrangement of the
  stored ones), newest timestamp first, each with its own id, amount and timestamp; where
  a player of the store has the id a record references, the reference is replaced by that
  player's id and username. The store holds at most one player per id.
\<close>

theorem get_point_history_sorted:
  "fst (get_point_history e d) = d \<and>
   (find_error e = None \<longrightarrow>
     (\<exists>hs0 hs.
        mset hs0 = mset (history d)
        \<and> sorted_wrt (\<lambda>a b. timestamp b \<le> timestamp a) hs0
        \<and> snd (get_point_history e d) = Response 200 (HistoryList hs)
        \<and> length hs = length hs0
        \<and> (\<forall>i<length hs0.
              p_history_id (hs ! i) = history_id (hs0 ! i)
              \<and> p_pointsAwarded (hs ! i) = pointsAwarded (hs0 ! i)
              \<and> p_timestamp (hs ! i) = timestamp (hs0 ! i)
              \<and> (distinct (map user_id (users d)) \<longrightarrow>
                   (\<forall>u\<in>set (users d). user_id u = userId (hs0 ! i) \<longrightarrow>
                      p_userId (hs ! i) = Some (user_id u, username u))))))"
proof -
  define hs0 where "hs0 = sort_key (\<lambda>h. - int (timestamp h)) (history d)"
  define hs where "hs = map (populate (users d)) hs0"
  have unchanged: "fst (get_point_history e d) = d"
    by (simp add: get_point_history_def PointHistory_find_populate_sort_def split: option.splits)
  have m: "mset hs0 = mset (history d)" by (simp add: hs0_def)
  have "sorted_wrt (\<lambda>a b. int (timestamp b) \<le> int (timestamp a)) hs0"
    unfolding hs0_def by (rule sorted_desc_sort_key)
  then have s: "sorted_wrt (\<lambda>a b. timestamp b \<le> timestamp a) hs0" by simp
  have r: "find_error e = None \<Longrightarrow> snd (get_point_history e d) = Response 200 (HistoryList hs)"
    by (simp add: get_point_history_def PointHistory_find_populate_sort_def hs_def hs0_def)
  have l: "length hs = length hs0" by (simp add: hs_def)
  have p: "\<forall>i<length hs0.
              p_history_id (hs ! i) = history_id (hs0 ! i)
              \<and> p_pointsAwarded (hs ! i) = pointsAwarded (hs0 ! i)
              \<and> p_timestamp (hs ! i) = timestamp (hs0 ! i)
              \<and> (distinct (map user_id (users d)) \<longrightarrow>
                   (\<forall>u\<in>set (users d). user_id u = userId (hs0 ! i) \<longrightarrow>
                      p_userId (hs ! i) = Some (user_id u, username u)))"
    by (auto simp: hs_def populate_found) (simp_all add: populate_def)
  from unchanged m s r l p show ?thesis by blast
qed

theorem get_point_history_sorted_witness:
  "find_error env0 = None
   \<and> distinct (map user_id (users store3))
   \<and> get_point_history env0 store3 =
       (store3, Response 200 (HistoryList
          [\<lparr>p_history_id = 4, p_userId = Some (0, ''Rahul''), p_pointsAwarded = 4, p_timestamp = 20\<rparr>,
           \<lparr>p_history_id = 3, p_userId = Some (1, ''Kamal''), p_pointsAwarded = 9, p_timestamp = 10\<rparr>]))
   \<and> (\<exists>hs0 hs.
        mset hs0 = mset (history store3)
        \<and> sorted_wrt (\<lambda>a b. timestamp b \<le> timestamp a) hs0
        \<and> snd (get_point_history env0 store3) = Response 200 (HistoryList hs)
        \<and> length hs = length hs0
        \<and> (\<forall>i<length hs0.
              p_history_id (hs ! i) = history_id (hs0 ! i)
              \<and> p_pointsAwarded (hs ! i) = pointsAwarded (hs0 ! i)
              \<and> p_timestamp (hs ! i) = timestamp (hs0 ! i)
              \<and> (\<forall>u\<in>set (users store3). user_id u = userId (hs0 ! i) \<longrightarrow>
                      p_userId (hs ! i) = Some (user_id u, username u))))"
proof -
  have a: "find_error env0 = None" by (simp add: env0_def)
  have b: "distinct (map user_id (users store3))" by (simp add: store3_def)
  have c: "get_point_history env0 store3 =
     (store3, Response 200 (HistoryList
        [\<lparr>p_history_id = 4, p_userId = Some (0, ''Rahul''), p_pointsAwarded = 4, p_timestamp = 20\<rparr>,
         \<lparr>p_history_id = 3, p_userId = Some (1, ''Kamal''), p_pointsAwarded = 9, p_timestamp = 10\<rparr>]))"
    by (simp add: env0_def store3_def get_point_history_def PointHistory_find_populate_sort_def
        populate_def)
  from get_point_history_sorted [of env0 store3] a b c show ?thesis by simp
qed

subsection \<open>Claiming for an unknown player\<close>




subsection \<open>Seeding\<close>

lemma insertMany_initialUsers:
  "User_insertMany initialUsers d =
     d\<lparr>users := users d @ map (\<lambda>(i, name). \<lparr>user_id = next_id d + i, username = name, points = 0\<rparr>)
          [(0, ''Rahul''), (1, ''Kamal''), (2, ''Sanak''), (3, ''Amit''), (4, ''Priya''),
           (5, ''Neha''), (6, ''Vikas''), (7, ''Anjali''), (8, ''Rohit''), (9, ''Simran'')],
       next_id := next_id d + 10\<rparr>"
  by (simp add: initialUsers_def)

text \<open>
  Claim C7. When the player collection is empty at start-up, the callback inserts the
  ten named default players, in the order of the source and each with 0 points, and
  nothing else; \<open>GET /users\<close> then returns exactly those ten, each once. When the
  collection is not empty the callback changes nothing, so running it again after a
  seeding changes nothing.
\<close>

theorem on_open_seeds:
  "(users d = [] \<longrightarrow>
      users (on_open d) =
        map (\<lambda>(i, name). \<lparr>user_id = next_id d + i, username = name, points = 0\<rparr>)
          [(0, ''Rahul''), (1, ''Kamal''), (2, ''Sanak''), (3, ''Amit''), (4, ''Priya''),
           (5, ''Neha''), (6, ''Vikas''), (7, ''Anjali''), (8, ''Rohit''), (9, ''Simran'')]
      \<and> history (on_open d) = history d
      \<and> (find_error e = None \<longrightarrow>
           (\<exists>us. get_users e (on_open d) = (on_open d, Response 200 (UserList us))
              \<and> mset us = mset (users (on_open d)))))
   \<and> (users d \<noteq> [] \<longrightarrow> on_open d = d)
   \<and> on_open (on_open d) = on_open d"
proof -
  have ne: "users d \<noteq> [] \<Longrightarrow> on_open d = d" for d by (simp add: on_open_def)
  have seeded: "users d = [] \<Longrightarrow> users (on_open d) =
        map (\<lambda>(i, name). \<lparr>user_id = next_id d + i, username = name, points = 0\<rparr>)
          [(0, ''Rahul''), (1, ''Kamal''), (2, ''Sanak''), (3, ''Amit''), (4, ''Priya''),
           (5, ''Neha''), (6, ''Vikas''), (7, ''Anjali''), (8, ''Rohit''), (9, ''Simran'')]"
    by (simp add: on_open_def insertMany_initialUsers)
  have hist: "history (on_open d) = history d"
    by (simp add: on_open_def insertMany_initialUsers)
  have idem: "on_open (on_open d) = on_open d"
  proof (cases "users d = []")
    case True
    then have "users (on_open d) \<noteq> []" by (simp add: seeded)
    then show ?thesis by (rule ne)
  next
    case False
    then show ?thesis by (simp add: ne)
  qed
  have lst: "find_error e = None \<Longrightarrow>
      \<exists>us. get_users e (on_open d) = (on_open d, Response 200 (UserList us))
         \<and> mset us = mset (users (on_open d))"
    by (simp add: get_users_def User_find_sort_def)
  from ne seeded hist idem lst show ?thesis by blast
qed

theorem on_open_seeds_witness:
  "users empty_state = [] \<and> find_error env0 = None \<and> users store3 \<noteq> []
   \<and> users (on_open empty_state) =
         [\<lparr>user_id = 0, username = ''Rahul'', points = 0\<rparr>,
          \<lparr>user_id = 1, username = ''Kamal'', points = 0\<rparr>,
          \<lparr>user_id = 2, username = ''Sanak'', points = 0\<rparr>,
          \<lparr>user_id = 3, username = ''Amit'', points = 0\<rparr>,
          \<lparr>user_id = 4, username = ''Priya'', points = 0\<rparr>,
          \<lparr>user_id = 5, username = ''Neha'', points = 0\<rparr>,
          \<lparr>user_id = 6, username = ''Vikas'', points = 0\<rparr>,
          \<lparr>user_id = 7, username = ''Anjali'', points = 0\<rparr>,
          \<lparr>user_id = 8, username = ''Rohit'', points = 0\<rparr>,
          \<lparr>user_id = 9, username = ''Simran'', points = 0\<rparr>]
   \<and> (\<exists>us. get_users env0 (on_open empty_state) = (on_open empty_state, Response 200 (UserList us))
         \<and> mset us = mset (users (on_open empty_state)))
   \<and> history (on_open empty_state) = []
   \<and> on_open store3 = store3
   \<and> on_open (on_open empty_state) = on_open empty_state"
proof -
  have a: "users empty_state = []" "history empty_state = []" "next_id empty_state = 0"
    by (simp_all add: empty_state_def)
  have b: "find_error env0 = None" by (simp add: env0_def)
  have c: "users store3 \<noteq> []" by (simp add: store3_def)
  from on_open_seeds [of empty_state env0] a(1) b
  have g: "\<exists>us. get_users env0 (on_open empty_state) = (on_open empty_state, Response 200 (UserList us))
         \<and> mset us = mset (users (on_open empty_state))" by blast
  from on_open_seeds [of empty_state env0] on_open_seeds [of store3 env0] a b c
  have "users (on_open empty_state) =
         [\<lparr>user_id = 0, username = ''Rahul'', points = 0\<rparr>,
          \<lparr>user_id = 1, username = ''Kamal'', points = 0\<rparr>,
          \<lparr>user_id = 2, username = ''Sanak'', points = 0\<rparr>,
          \<lparr>user_id = 3, username = ''Amit'', points = 0\<rparr>,
          \<lparr>user_id = 4, username = ''Priya'', points = 0\<rparr>,
          \<lparr>user_id = 5, username = ''Neha'', points = 0\<rparr>,
          \<lparr>user_id = 6, username = ''Vikas'', points = 0\<rparr>,
          \<lparr>user_id = 7, username = ''Anjali'', points = 0\<rparr>,
          \<lparr>user_id = 8, username = ''Rohit'', points = 0\<rparr>,
          \<lparr>user_id = 9, username = ''Simran'', points = 0\<rparr>]"
    and "history (on_open empty_state) = []"
    and "on_open store3 = store3"
    and "on_open (on_open empty_state) = on_open empty_state"
    by simp_all
  with a(1) b c g show ?thesis by (intro conjI)
qed

subsection \<open>Registering a player\<close>

lemma post_users_201:
  "post_users e b d = (d', Response 201 p) \<Longrightarrow>
   \<exists>name. b ''username'' = Some (JStr name) \<and> save_error e = None
     \<and> p = UserDoc \<lparr>user_id = next_id d, username = name, points = 0\<rparr>
     \<and> d' = d\<lparr>users := users d @ [\<lparr>user_id = next_id d, username = name, points = 0\<rparr>],
              next_id := Suc (next_id d)\<rparr>"
  by (auto simp: post_users_def new_User_def User_save_new_def
      split: sum.splits option.splits json.splits)

lemma post_users_ok:
  "b ''username'' = Some (JStr name) \<Longrightarrow> save_error e = None \<Longrightarrow>
   post_users e b d =
     (d\<lparr>users := users d @ [\<lparr>user_id = next_id d, username = name, points = 0\<rparr>],
        next_id := Suc (next_id d)\<rparr>,
      Response 201 (UserDoc \<lparr>user_id = next_id d, username = name, points = 0\<rparr>))"
  by (simp add: post_users_def new_User_def User_save_new_def)

lemma post_users_sample:
  "post_users env0 [''username'' \<mapsto> JStr ''Test''] store3 =
     (store4, Response 201 (UserDoc \<lparr>user_id = 5, username = ''Test'', points = 0\<rparr>))"
  by (simp add: post_users_ok env0_def) (simp add: store3_def store4_def)

text \<open>
  Claim C8. A \<open>POST /users\<close> request answered with 201 had a string \<open>username\<close>;
  it appends exactly one player \<open>u\<close> with that name, 0 points and the newly drawn id,
  and returns \<open>u\<close>. The players stored before and the award records are as they
  were, no stored player has the id of \<open>u\<close> (in a store whose ids were all drawn
  earlier), and every later \<open>GET /users\<close> whose query completes lists \<open>u\<close>, with
  its 0 points.
\<close>

theorem post_users_success:
  assumes "post_users e b d = (d', Response 201 p)"
  shows "\<exists>name u. b ''username'' = Some (JStr name)
     \<and> u = \<lparr>user_id = next_id d, username = name, points = 0\<rparr>
     \<and> p = UserDoc u
     \<and> users d' = users d @ [u]
     \<and> history d' = history d
     \<and> (ids_fresh d \<longrightarrow> (\<forall>v\<in>set (users d). user_id v \<noteq> user_id u))
     \<and> (\<forall>e'. find_error e' = None \<longrightarrow>
           (\<exists>us. get_users e' d' = (d', Response 200 (UserList us)) \<and> u \<in> set us))"
proof -
  from post_users_201 [OF assms] obtain name where
    n: "b ''username'' = Some (JStr name)"
      "p = UserDoc \<lparr>user_id = next_id d, username = name, points = 0\<rparr>"
      "d' = d\<lparr>users := users d @ [\<lparr>user_id = next_id d, username = name, points = 0\<rparr>],
              next_id := Suc (next_id d)\<rparr>" by blast
  define u where "u = \<lparr>user_id = next_id d, username = name, points = 0\<rparr>"
  have "u \<in> set (sort_key (\<lambda>u. - points u) (users d'))" by (simp add: n u_def)
  then have l: "\<forall>e'. find_error e' = None \<longrightarrow>
           (\<exists>us. get_users e' d' = (d', Response 200 (UserList us)) \<and> u \<in> set us)"
    by (simp add: get_users_def User_find_sort_def)
  have f: "ids_fresh d \<longrightarrow> (\<forall>v\<in>set (users d). user_id v \<noteq> user_id u)"
    by (auto simp: u_def dest: fresh_next_id)
  from n l f show ?thesis by (simp add: u_def)
qed

theorem post_users_success_witness:
  "post_users env0 [''username'' \<mapsto> JStr ''Test''] store3 =
     (store4, Response 201 (UserDoc \<lparr>user_id = 5, username = ''Test'', points = 0\<rparr>))
   \<and> ids_fresh store3
   \<and> (\<exists>name u. [''username'' \<mapsto> JStr ''Test''] ''username'' = Some (JStr name)
     \<and> u = \<lparr>user_id = 5, username = name, points = 0\<rparr>
     \<and> users store4 = users store3 @ [u]
     \<and> history store4 = history store3
     \<and> (\<forall>v\<in>set (users store3). user_id v \<noteq> user_id u)
     \<and> (\<forall>e'. find_error e' = None \<longrightarrow>
           (\<exists>us. get_users e' store4 = (store4, Response 200 (UserList us)) \<and> u \<in> set us)))"
proof -
  have b: "ids_fresh store3" by (simp add: ids_fresh_def store3_def)
  have n: "next_id store3 = 5" by (simp add: store3_def)
  from post_users_success [where b = "[''username'' \<mapsto> JStr ''Test'']", OF post_users_sample]
    post_users_sample b
  show ?thesis by (simp add: n)
qed

text \<open>
  Claim C10. \<open>POST /users\<close> reads only the \<open>username\<close> field: two request bodies
  with the same \<open>username\<close> give the same state and the same response, whatever
  else they hold. In particular a \<open>points\<close> field changes nothing: a created player
  has 0 points, in the response and in the store.
\<close>

theorem post_users_reads_username_only:
  assumes "b1 ''username'' = b2 ''username''"
  shows "post_users e b1 d = post_users e b2 d
    \<and> (\<forall>d' s u. post_users e b1 d = (d', Response s (UserDoc u)) \<longrightarrow>
          points u = 0 \<and> last (users d') = u)"
  using assms
  by (auto simp: post_users_def new_User_def User_save_new_def
      split: sum.splits option.splits json.splits)

theorem post_users_reads_username_only_witness:
  "[''username'' \<mapsto> JStr ''Test''] ''username''
     = [''username'' \<mapsto> JStr ''Test'', ''points'' \<mapsto> JNum 100] ''username''
   \<and> post_users env0 [''username'' \<mapsto> JStr ''Test'', ''points'' \<mapsto> JNum 100] store3 =
       (store4, Response 201 (UserDoc \<lparr>user_id = 5, username = ''Test'', points = 0\<rparr>))
   \<and> last (users store4) = \<lparr>user_id = 5, username = ''Test'', points = 0\<rparr>"
proof -
  have a: "[''username'' \<mapsto> JStr ''Test''] ''username''
     = [''username'' \<mapsto> JStr ''Test'', ''points'' \<mapsto> JNum 100] ''username''" by simp
  from post_users_reads_username_only
    [where ?b1.0 = "[''username'' \<mapsto> JStr ''Test'']"
       and ?b2.0 = "[''username'' \<mapsto> JStr ''Test'', ''points'' \<mapsto> JNum 100]"
       and e = env0 and d = store3] a post_users_sample
  show ?thesis by simp
qed

subsection \<open>Claiming points\<close>

text \<open>What a claim does when the lookup finds a player and neither write throws.\<close>

lemma post_claim_points_ok:
  assumes "User_findById (find_error e) (b ''userId'') d = Inr (Some u)"
    and "save_error e = None" and "create_error e = None"
  shows "post_claim_points e b d =
     (\<lparr>users = map (\<lambda>v. if user_id v = user_id u
                        then v\<lparr>points := number_add (points u) (draw_points (random e))\<rparr>
                        else v) (users d),
       history = history d @
         [\<lparr>history_id = next_id d, userId = user_id u,
           pointsAwarded = draw_points (random e), timestamp = now e\<rparr>],
       next_id = Suc (next_id d)\<rparr>,
      Response 200 (Claimed (draw_points (random e))
                            (number_add (points u) (draw_points (random e)))))"
  using assms
  by (simp add: post_claim_points_def Let_def User_save_def PointHistory_create_def)

text \<open>Only such a claim is answered with 200.\<close>

lemma post_claim_points_200:
  "post_claim_points e b d = (d', Response 200 p) \<Longrightarrow>
   \<exists>u. User_findById (find_error e) (b ''userId'') d = Inr (Some u)
     \<and> save_error e = None \<and> create_error e = None"
  by (auto simp: post_claim_points_def Let_def User_save_def PointHistory_create_def
      split: sum.splits option.splits)

lemma claim_points_sample:
  "post_claim_points env0 [''userId'' \<mapsto> JOid 0] store3 =
     (\<lparr>users = [\<lparr>user_id = 0, username = ''Rahul'', points = 8\<rparr>,
               \<lparr>user_id = 1, username = ''Kamal'', points = 9\<rparr>,
               \<lparr>user_id = 2, username = ''Sanak'', points = 0\<rparr>],
       history = [\<lparr>history_id = 3, userId = 1, pointsAwarded = 9, timestamp = 10\<rparr>,
                  \<lparr>history_id = 4, userId = 0, pointsAwarded = 4, timestamp = 20\<rparr>,
                  \<lparr>history_id = 5, userId = 0, pointsAwarded = 4, timestamp = 1000\<rparr>],
       next_id = 6\<rparr>,
      Response 200 (Claimed 4 8))"
proof -
  have "User_findById (find_error env0) ([''userId'' \<mapsto> JOid 0] ''userId'') store3
        = Inr (Some \<lparr>user_id = 0, username = ''Rahul'', points = 4\<rparr>)"
    by (simp add: env0_def store3_def User_findById_def castObjectId_def)
  from post_claim_points_ok [where b = "[''userId'' \<mapsto> JOid 0]", OF this] show ?thesis
    by (simp add: env0_def store3_def draw_points_sample number_add_exact)
qed

lemma claim_points_sample_other:
  "post_claim_points env1 [''userId'' \<mapsto> JOid 5] store4 =
     (\<lparr>users = [\<lparr>user_id = 0, username = ''Rahul'', points = 4\<rparr>,
               \<lparr>user_id = 1, username = ''Kamal'', points = 9\<rparr>,
               \<lparr>user_id = 2, username = ''Sanak'', points = 0\<rparr>,
               \<lparr>user_id = 5, username = ''Test'', points = 4\<rparr>],
       history = [\<lparr>history_id = 3, userId = 1, pointsAwarded = 9, timestamp = 10\<rparr>,
                  \<lparr>history_id = 4, userId = 0, pointsAwarded = 4, timestamp = 20\<rparr>,
                  \<lparr>history_id = 6, userId = 5, pointsAwarded = 4, timestamp = 2000\<rparr>],
       next_id = 7\<rparr>,
      Response 200 (Claimed 4 4))"
proof -
  have "User_findById (find_error env1) ([''userId'' \<mapsto> JOid 5] ''userId'') store4
        = Inr (Some \<lparr>user_id = 5, username = ''Test'', points = 0\<rparr>)"
    by (simp add: env1_def store4_def User_findById_def castObjectId_def)
  from post_claim_points_ok [where b = "[''userId'' \<mapsto> JOid 5]", OF this] show ?thesis
    by (simp add: env1_def store4_def draw_points_sample number_add_exact)
qed

text \<open>
  Claim C1, as the code has it. Let \<open>Math.random()\<close> return a Number in
  \<open>[0, 1)\<close>, the lookup find the player \<open>u\<close>, and neither write throw. Then the
  amount \<open>a\<close> drawn is an integer from 1 to 10; the new total \<open>t\<close> is the sum of
  \<open>points u\<close> and \<open>a\<close> as Numbers, which is \<open>points u + a\<close> whenever that is at
  most \<open>2^53\<close> in magnitude (the range in which the addition of Numbers is exact); the
  response is 200 with \<open>pointsAwarded = a\<close> and \<open>totalPoints = t\<close>; a lookup of
  the same id in the new state finds \<open>u\<close> with \<open>t\<close> points; and the award history
  is the old one followed by one new record with the id of \<open>u\<close>, the amount \<open>a\<close>
  and the current time.
\<close>

theorem claim_points_success:
  assumes "is_binary64 (random e)" and "0 \<le> random e" and "random e < 1"
    and "User_findById (find_error e) (b ''userId'') d = Inr (Some u)"
    and "save_error e = None" and "create_error e = None"
  shows "\<exists>a t d'. 1 \<le> a \<and> a \<le> 10
     \<and> t = number_add (points u) a
     \<and> (\<bar>points u + a\<bar> \<le> 2 ^ 53 \<longrightarrow> t = points u + a)
     \<and> post_claim_points e b d = (d', Response 200 (Claimed a t))
     \<and> User_findById None (b ''userId'') d' = Inr (Some (u\<lparr>points := t\<rparr>))
     \<and> history d' = history d @
          [\<lparr>history_id = next_id d, userId = user_id u, pointsAwarded = a, timestamp = now e\<rparr>]"
proof -
  define a where "a = draw_points (random e)"
  from assms(1-3) have r: "1 \<le> a \<and> a \<le> 10" unfolding a_def by (rule draw_points_range)
  have x: "\<bar>points u + a\<bar> \<le> 2 ^ 53 \<longrightarrow> number_add (points u) a = points u + a"
    by (simp add: number_add_exact)
  from assms(4) have f: "b ''userId'' = Some (JOid (user_id u))"
    "find (\<lambda>w. user_id w = user_id u) (users d) = Some u"
    by (auto dest: findById_Some)
  have l: "User_findById None (b ''userId'')
      (fst (post_claim_points e b d)) = Inr (Some (u\<lparr>points := number_add (points u) a\<rparr>))"
    using f post_claim_points_ok [where b = b, OF assms(4-6)]
    by (simp add: a_def User_findById_def castObjectId_def find_map_points)
  from r x l post_claim_points_ok [where b = b, OF assms(4-6)] show ?thesis
    by (simp add: a_def)
qed

theorem claim_points_success_witness:
  "is_binary64 (random env0) \<and> 0 \<le> random env0 \<and> random env0 < 1
   \<and> User_findById (find_error env0) ([''userId'' \<mapsto> JOid 0] ''userId'') store3
        = Inr (Some \<lparr>user_id = 0, username = ''Rahul'', points = 4\<rparr>)
   \<and> save_error env0 = None \<and> create_error env0 = None
   \<and> (\<exists>a t d'. 1 \<le> a \<and> a \<le> 10
        \<and> \<bar>4 + a\<bar> \<le> 2 ^ 53 \<and> t = 4 + a
        \<and> post_claim_points env0 [''userId'' \<mapsto> JOid 0] store3
            = (d', Response 200 (Claimed a t))
        \<and> User_findById None ([''userId'' \<mapsto> JOid 0] ''userId'') d'
            = Inr (Some \<lparr>user_id = 0, username = ''Rahul'', points = t\<rparr>)
        \<and> history d' = history store3 @
             [\<lparr>history_id = 5, userId = 0, pointsAwarded = a, timestamp = 1000\<rparr>])"
proof -
  have 1: "is_binary64 (random env0)" by (simp add: env0_def is_binary64_sample)
  have 2: "0 \<le> random env0" "random env0 < 1" by (simp_all add: env0_def)
  have 3: "User_findById (find_error env0) ([''userId'' \<mapsto> JOid 0] ''userId'') store3
        = Inr (Some \<lparr>user_id = 0, username = ''Rahul'', points = 4\<rparr>)"
    by (simp add: env0_def store3_def User_findById_def castObjectId_def)
  have 5: "save_error env0 = None" "create_error env0 = None" by (simp_all add: env0_def)
  from claim_points_success [where b = "[''userId'' \<mapsto> JOid 0]", OF 1 2 3 5]
  obtain a t d' where w: "1 \<le> a" "a \<le> 10"
    "t = number_add (points \<lparr>user_id = 0, username = ''Rahul'', points = 4\<rparr>) a"
    "\<bar>points \<lparr>user_id = 0, username = ''Rahul'', points = 4\<rparr> + a\<bar> \<le> 2 ^ 53 \<longrightarrow>
       t = points \<lparr>user_id = 0, username = ''Rahul'', points = 4\<rparr> + a"
    "post_claim_points env0 [''userId'' \<mapsto> JOid 0] store3 = (d', Response 200 (Claimed a t))"
    "User_findById None ([''userId'' \<mapsto> JOid 0] ''userId'') d'
       = Inr (Some (\<lparr>user_id = 0, username = ''Rahul'', points = 4\<rparr>\<lparr>points := t\<rparr>))"
    "history d' = history store3 @
       [\<lparr>history_id = next_id store3, userId = user_id \<lparr>user_id = 0, username = ''Rahul'', points = 4\<rparr>,
         pointsAwarded = a, timestamp = now env0\<rparr>]"
    by blast
  from w(1,2) have bound: "\<bar>4 + a\<bar> \<le> 2 ^ 53" by simp
  with w(4) have t: "t = 4 + a" by simp
  from w bound t have "1 \<le> a \<and> a \<le> 10
        \<and> \<bar>4 + a\<bar> \<le> 2 ^ 53 \<and> t = 4 + a
        \<and> post_claim_points env0 [''userId'' \<mapsto> JOid 0] store3
            = (d', Response 200 (Claimed a t))
        \<and> User_findById None ([''userId'' \<mapsto> JOid 0] ''userId'') d'
            = Inr (Some \<lparr>user_id = 0, username = ''Rahul'', points = t\<rparr>)
        \<and> history d' = history store3 @
             [\<lparr>history_id = 5, userId = 0, pointsAwarded = a, timestamp = 1000\<rparr>]"
    by (simp add: env0_def store3_def)
  then have "\<exists>a t d'. 1 \<le> a \<and> a \<le> 10
        \<and> \<bar>4 + a\<bar> \<le> 2 ^ 53 \<and> t = 4 + a
        \<and> post_claim_points env0 [''userId'' \<mapsto> JOid 0] store3
            = (d', Response 200 (Claimed a t))
        \<and> User_findById None ([''userId'' \<mapsto> JOid 0] ''userId'') d'
            = Inr (Some \<lparr>user_id = 0, username = ''Rahul'', points = t\<rparr>)
        \<and> history d' = history store3 @
             [\<lparr>history_id = 5, userId = 0, pointsAwarded = a, timestamp = 1000\<rparr>]"
    by blast
  with 1 2 3 5 show ?thesis by (intro conjI)
qed

text \<open>
  Claim C1, as stated, fails: a player with \<open>2^53\<close> points who is awarded 1 point
  still has \<open>2^53\<close> points, in the response and in the store, because \<open>2^53 + 1\<close>
  is no Number. The lookup finds the player, both writes succeed and the record of the
  award is created.
\<close>

theorem claim_points_total_rounds:
  "is_binary64 (random env_draw1) \<and> 0 \<le> random env_draw1 \<and> random env_draw1 < 1
   \<and> User_findById (find_error env_draw1) ([''userId'' \<mapsto> JOid 0] ''userId'') store_big
        = Inr (Some \<lparr>user_id = 0, username = ''Rahul'', points = 9007199254740992\<rparr>)
   \<and> save_error env_draw1 = None \<and> create_error env_draw1 = None
   \<and> post_claim_points env_draw1 [''userId'' \<mapsto> JOid 0] store_big =
       (\<lparr>users = [\<lparr>user_id = 0, username = ''Rahul'', points = 9007199254740992\<rparr>],
         history = [\<lparr>history_id = 1, userId = 0, pointsAwarded = 1, timestamp = 1000\<rparr>],
         next_id = 2\<rparr>,
        Response 200 (Claimed 1 9007199254740992))
   \<and> (9007199254740992 :: int) \<noteq> 9007199254740992 + 1"
proof -
  have z: "is_binary64 0" by (simp add: is_binary64_def binary64_def round_even_def)
  have f: "User_findById (find_error env_draw1) ([''userId'' \<mapsto> JOid 0] ''userId'') store_big
        = Inr (Some \<lparr>user_id = 0, username = ''Rahul'', points = 9007199254740992\<rparr>)"
    by (simp add: env_draw1_def store_big_def User_findById_def castObjectId_def)
  have e: "save_error env_draw1 = None" "create_error env_draw1 = None"
    by (simp_all add: env_draw1_def)
  from post_claim_points_ok [where b = "[''userId'' \<mapsto> JOid 0]", OF f e]
  have "post_claim_points env_draw1 [''userId'' \<mapsto> JOid 0] store_big =
       (\<lparr>users = [\<lparr>user_id = 0, username = ''Rahul'', points = 9007199254740992\<rparr>],
         history = [\<lparr>history_id = 1, userId = 0, pointsAwarded = 1, timestamp = 1000\<rparr>],
         next_id = 2\<rparr>,
        Response 200 (Claimed 1 9007199254740992))"
    by (simp add: env_draw1_def store_big_def draw_points_zero number_add_inexact)
  with z f e show ?thesis by (simp add: env_draw1_def)
qed

text \<open>
  Claim C6. A \<open>POST /claim-points\<close> request answered with 200 named a player id
  \<open>n\<close>. It leaves the number and order of the players, every player's id and
  username, and every player with another id as they were; the award history is the old
  one, unchanged, followed by exactly one new record, which references \<open>n\<close>.
\<close>

theorem claim_points_frame:
  assumes "post_claim_points e b d = (d', Response 200 p)"
  shows "\<exists>n. b ''userId'' = Some (JOid n)
     \<and> length (users d') = length (users d)
     \<and> (\<forall>i<length (users d).
          user_id (users d' ! i) = user_id (users d ! i)
          \<and> username (users d' ! i) = username (users d ! i)
          \<and> (user_id (users d ! i) \<noteq> n \<longrightarrow> users d' ! i = users d ! i))
     \<and> (\<exists>h. userId h = n \<and> history d' = history d @ [h])"
proof -
  from post_claim_points_200 [OF assms] obtain u where
    u: "User_findById (find_error e) (b ''userId'') d = Inr (Some u)"
      "save_error e = None" "create_error e = None" by blast
  from u(1) have n: "b ''userId'' = Some (JOid (user_id u))" by (auto dest: findById_Some)
  from post_claim_points_ok [where b = b, OF u] assms
  have d': "d' = \<lparr>users = map (\<lambda>v. if user_id v = user_id u
                        then v\<lparr>points := number_add (points u) (draw_points (random e))\<rparr>
                        else v) (users d),
       history = history d @
         [\<lparr>history_id = next_id d, userId = user_id u,
           pointsAwarded = draw_points (random e), timestamp = now e\<rparr>],
       next_id = Suc (next_id d)\<rparr>" by simp
  show ?thesis
    by (rule exI [of _ "user_id u"]) (simp add: n d')
qed

theorem claim_points_frame_witness:
  "\<exists>d' p. post_claim_points env0 [''userId'' \<mapsto> JOid 0] store3 = (d', Response 200 p)
     \<and> [''userId'' \<mapsto> JOid 0] ''userId'' = Some (JOid 0)
     \<and> length (users d') = length (users store3)
     \<and> (\<forall>i<length (users store3).
          user_id (users d' ! i) = user_id (users store3 ! i)
          \<and> username (users d' ! i) = username (users store3 ! i)
          \<and> (user_id (users store3 ! i) \<noteq> 0 \<longrightarrow> users d' ! i = users store3 ! i))
     \<and> (\<exists>h. userId h = 0 \<and> history d' = history store3 @ [h])"
  using claim_points_frame [where b = "[''userId'' \<mapsto> JOid 0]", OF claim_points_sample]
  by (simp add: claim_points_sample)

text \<open>
  Claim C9. The amount a claim awards is a function of the value of \<open>Math.random()\<close>
  alone: two claims that draw the same value and both award points award the same
  amount, in the response and in the award record, whatever the two stores hold, whichever
  players the two requests name and whatever else differs between the two environments.
\<close>

theorem claim_points_draw_independent:
  assumes "random e1 = random e2"
    and "post_claim_points e1 b1 d1 = (d1', Response s1 (Claimed a1 t1))"
    and "post_claim_points e2 b2 d2 = (d2', Response s2 (Claimed a2 t2))"
  shows "a1 = a2 \<and> a1 = draw_points (random e1)
    \<and> pointsAwarded (last (history d1')) = pointsAwarded (last (history d2'))"
  using assms
  by (auto simp: post_claim_points_def Let_def User_save_def PointHistory_create_def
      split: sum.splits option.splits)

theorem claim_points_draw_independent_witness:
  "random env0 = random env1
   \<and> snd (post_claim_points env0 [''userId'' \<mapsto> JOid 0] store3) = Response 200 (Claimed 4 8)
   \<and> snd (post_claim_points env1 [''userId'' \<mapsto> JOid 5] store4) = Response 200 (Claimed 4 4)
   \<and> draw_points (random env0) = 4"
proof -
  have r: "random env0 = random env1" by (simp add: env0_def env1_def)
  from claim_points_draw_independent [OF r claim_points_sample claim_points_sample_other] r
  show ?thesis by (simp add: claim_points_sample claim_points_sample_other)
qed

subsection \<open>The ledger over sequential executions\<close>

lemma award_sum_append:
  "award_sum (hs @ [h]) n = award_sum hs n + (if userId h = n then pointsAwarded h else 0)"
  by (simp add: award_sum_def)

lemma award_sum_unreferenced:
  "list_all (\<lambda>h. userId h < k) hs \<Longrightarrow> k \<le> n \<Longrightarrow> award_sum hs n = 0"
  by (induction hs) (auto simp: award_sum_def)

text \<open>Inserting a new player with no points keeps the ledger.\<close>

lemma insert_user_keeps:
  assumes "ids_fresh d" and "points_match d"
  shows "ids_fresh (d\<lparr>users := users d @ [\<lparr>user_id = next_id d, username = name, points = 0\<rparr>],
                      next_id := Suc (next_id d)\<rparr>)
     \<and> points_match (d\<lparr>users := users d @ [\<lparr>user_id = next_id d, username = name, points = 0\<rparr>],
                        next_id := Suc (next_id d)\<rparr>)"
proof -
  from assms(1) have "award_sum (history d) (next_id d) = 0"
    by (intro award_sum_unreferenced [of "next_id d"]) (simp_all add: ids_fresh_def)
  with assms show ?thesis
    by (auto simp: ids_fresh_def points_match_def list_all_iff)
qed

lemma insertMany_keeps:
  "ids_fresh d \<Longrightarrow> points_match d \<Longrightarrow>
   ids_fresh (User_insertMany names d) \<and> points_match (User_insertMany names d)"
proof (induction names arbitrary: d)
  case Nil
  then show ?case by simp
next
  case (Cons name names)
  from insert_user_keeps [OF Cons.prems, of name] Cons.IH show ?case by simp
qed

lemma on_open_keeps:
  "ids_fresh d \<Longrightarrow> points_match d \<Longrightarrow> ids_fresh (on_open d) \<and> points_match (on_open d)"
  by (simp add: on_open_def insertMany_keeps)

lemma post_users_keeps:
  assumes "ids_fresh d" and "points_match d"
  shows "ids_fresh (fst (post_users e b d)) \<and> points_match (fst (post_users e b d))"
proof -
  have "fst (post_users e b d) = d
    \<or> (\<exists>name. fst (post_users e b d) =
          d\<lparr>users := users d @ [\<lparr>user_id = next_id d, username = name, points = 0\<rparr>],
            next_id := Suc (next_id d)\<rparr>)"
    by (auto simp: post_users_def new_User_def User_save_new_def
        split: sum.splits option.splits json.splits)
  with assms insert_user_keeps [OF assms] show ?thesis by auto
qed

text \<open>A completed claim keeps the ledger: the player gains what the new record awards.\<close>

lemma claimed_keeps:
  assumes f: "ids_fresh d" and m: "points_match d"
    and u: "find (\<lambda>w. user_id w = n) (users d) = Some u"
  shows "ids_fresh \<lparr>users = map (\<lambda>v. if user_id v = n then v\<lparr>points := points u + a\<rparr> else v) (users d),
           history = history d @ [\<lparr>history_id = k, userId = n, pointsAwarded = a, timestamp = t\<rparr>],
           next_id = Suc (next_id d)\<rparr>
     \<and> points_match \<lparr>users = map (\<lambda>v. if user_id v = n then v\<lparr>points := points u + a\<rparr> else v) (users d),
           history = history d @ [\<lparr>history_id = k, userId = n, pointsAwarded = a, timestamp = t\<rparr>],
           next_id = Suc (next_id d)\<rparr>"
proof -
  from u have un: "user_id u = n" "u \<in> set (users d)" by (auto dest: find_Some_key)
  from f have inj: "inj_on user_id (set (users d))" by (simp add: ids_fresh_def distinct_map)
  have same: "v = u" if "v \<in> set (users d)" "user_id v = n" for v
    using inj that un by (auto dest: inj_onD)
  have ids: "map user_id (map (\<lambda>v. if user_id v = n then v\<lparr>points := p\<rparr> else v) us)
      = map user_id us" for p us
    by (induction us) auto
  from f un have "n < next_id d" by (auto dest: fresh_next_id)
  with f have 1: "ids_fresh \<lparr>users = map (\<lambda>v. if user_id v = n then v\<lparr>points := points u + a\<rparr> else v) (users d),
           history = history d @ [\<lparr>history_id = k, userId = n, pointsAwarded = a, timestamp = t\<rparr>],
           next_id = Suc (next_id d)\<rparr>"
    unfolding ids_fresh_def state.simps ids by (auto simp: list_all_iff)
  have pm: "points (if user_id v = n then v\<lparr>points := points u + a\<rparr> else v)
      = award_sum (history d @ [\<lparr>history_id = k, userId = n, pointsAwarded = a, timestamp = t\<rparr>])
          (user_id (if user_id v = n then v\<lparr>points := points u + a\<rparr> else v))"
    if v: "v \<in> set (users d)" for v
  proof -
    from m v have pv: "points v = award_sum (history d) (user_id v)"
      by (simp add: points_match_def list_all_iff)
    show ?thesis
    proof (cases "user_id v = n")
      case True
      with v have "v = u" by (rule same)
      with True pv show ?thesis by (simp add: award_sum_append)
    next
      case False
      with pv show ?thesis by (simp add: award_sum_append)
    qed
  qed
  have 2: "points_match \<lparr>users = map (\<lambda>v. if user_id v = n then v\<lparr>points := points u + a\<rparr> else v) (users d),
           history = history d @ [\<lparr>history_id = k, userId = n, pointsAwarded = a, timestamp = t\<rparr>],
           next_id = Suc (next_id d)\<rparr>"
    unfolding points_match_def state.simps list_all_iff set_map
  proof (rule ballI, erule imageE)
    fix w v
    assume "w = (if user_id v = n then v\<lparr>points := points u + a\<rparr> else v)"
      and "v \<in> set (users d)"
    then show "points w
      = award_sum (history d @ [\<lparr>history_id = k, userId = n, pointsAwarded = a, timestamp = t\<rparr>])
          (user_id w)"
      using pm [of v] by (simp only:)
  qed
  from 1 2 show ?thesis ..
qed

lemma claim_points_keeps:
  assumes "ids_fresh d" and "points_match d" and "\<not> torn e (ClaimPoints b) d"
    and "in_range e (ClaimPoints b) d"
  shows "ids_fresh (fst (post_claim_points e b d)) \<and> points_match (fst (post_claim_points e b d))"
proof (cases "\<exists>u. User_findById (find_error e) (b ''userId'') d = Inr (Some u)
    \<and> save_error e = None \<and> create_error e = None")
  case True
  then obtain u where u: "User_findById (find_error e) (b ''userId'') d = Inr (Some u)"
    "save_error e = None" "create_error e = None" by blast
  from u(1) have "find (\<lambda>w. user_id w = user_id u) (users d) = Some u"
    by (auto dest: findById_Some)
  moreover from u(1) assms(4) have "\<bar>points u + draw_points (random e)\<bar> \<le> 2 ^ 53" by simp
  then have x: "number_add (points u) (draw_points (random e)) = points u + draw_points (random e)"
    by (rule number_add_exact)
  ultimately show ?thesis
    using claimed_keeps [OF assms(1,2)] post_claim_points_ok [where b = b, OF u, unfolded x]
    by simp
next
  case False
  with assms(3) have "fst (post_claim_points e b d) = d"
    by (auto simp: post_claim_points_def Let_def User_save_def PointHistory_create_def
        split: sum.splits option.splits)
  with assms show ?thesis by simp
qed

lemma exec_keeps:
  assumes "ids_fresh d" and "points_match d" and "\<not> torn e ev d" and "in_range e ev d"
  shows "ids_fresh (exec e ev d) \<and> points_match (exec e ev d)"
proof (cases ev)
  case Startup
  with assms show ?thesis by (simp add: on_open_keeps)
next
  case GetUsers
  with assms show ?thesis
    by (simp add: get_users_def split: sum.splits)
next
  case (PostUsers b)
  with assms show ?thesis by (simp add: post_users_keeps)
next
  case (ClaimPoints b)
  with assms show ?thesis by (simp add: claim_points_keeps del: torn.simps in_range.simps)
next
  case GetPointHistory
  with assms show ?thesis
    by (simp add: get_point_history_def split: sum.splits)
qed

lemma run_keeps:
  "ids_fresh d \<Longrightarrow> points_match d \<Longrightarrow> untorn tr d \<Longrightarrow> all_in_range tr d \<Longrightarrow>
   ids_fresh (run tr d) \<and> points_match (run tr d)"
proof (induction tr arbitrary: d)
  case Nil
  then show ?case by simp
next
  case (Cons step tr)
  obtain e ev where step: "step = (e, ev)" by (cases step)
  with Cons.prems have "\<not> torn e ev d" "untorn tr (exec e ev d)"
    "in_range e ev d" "all_in_range tr (exec e ev d)" by simp_all
  with Cons.prems exec_keeps [of d e ev] Cons.IH [of "exec e ev d"] step
  show ?case by simp
qed

lemma empty_state_ok: "ids_fresh empty_state \<and> points_match empty_state"
  by (simp add: empty_state_def ids_fresh_def points_match_def)

lemma not_torn_no_create_error: "create_error e = None \<Longrightarrow> \<not> torn e ev d"
  by (cases ev) (simp_all split: sum.splits option.splits)

lemma untorn_no_create_error:
  "list_all (\<lambda>(e, ev). create_error e = None) tr \<Longrightarrow> untorn tr d"
proof (induction tr arbitrary: d)
  case Nil
  then show ?case by simp
next
  case (Cons step tr)
  obtain e ev where step: "step = (e, ev)" by (cases step)
  with Cons.prems have "create_error e = None" "list_all (\<lambda>(e, ev). create_error e = None) tr"
    by simp_all
  with step show ?case
    by (simp add: not_torn_no_create_error Cons.IH del: torn.simps)
qed

lemma run_trace0:
  "run trace0 empty_state =
     \<lparr>users =
        [\<lparr>user_id = 0, username = ''Rahul'', points = 0\<rparr>,
         \<lparr>user_id = 1, username = ''Kamal'', points = 0\<rparr>,
         \<lparr>user_id = 2, username = ''Sanak'', points = 0\<rparr>,
         \<lparr>user_id = 3, username = ''Amit'', points = 0\<rparr>,
         \<lparr>user_id = 4, username = ''Priya'', points = 0\<rparr>,
         \<lparr>user_id = 5, username = ''Neha'', points = 0\<rparr>,
         \<lparr>user_id = 6, username = ''Vikas'', points = 0\<rparr>,
         \<lparr>user_id = 7, username = ''Anjali'', points = 0\<rparr>,
         \<lparr>user_id = 8, username = ''Rohit'', points = 0\<rparr>,
         \<lparr>user_id = 9, username = ''Simran'', points = 0\<rparr>,
         \<lparr>user_id = 10, username = ''Test'', points = 4\<rparr>],
      history = [\<lparr>history_id = 11, userId = 10, pointsAwarded = 4, timestamp = 1000\<rparr>],
      next_id = 12\<rparr>"
  by (simp add: trace0_def empty_state_def on_open_def initialUsers_def env0_def
      env_save_fails_def get_users_def get_point_history_def post_users_def
      post_claim_points_def User_find_sort_def User_findById_def castObjectId_def
      User_save_def new_User_def User_save_new_def PointHistory_create_def
      PointHistory_find_populate_sort_def draw_points_sample number_add_exact)

lemma all_in_range_trace0: "all_in_range trace0 empty_state"
  by (simp add: trace0_def empty_state_def on_open_def initialUsers_def env0_def
      env_save_fails_def get_users_def get_point_history_def post_users_def
      post_claim_points_def User_find_sort_def User_findById_def castObjectId_def
      User_save_def new_User_def User_save_new_def PointHistory_create_def
      PointHistory_find_populate_sort_def draw_points_sample number_add_exact)

text \<open>
  Claim C2, as the code has it. The two writes of a claim are separate store calls inside
  one \<open>try\<close>: when the insert of the award record throws after \<open>user.save()\<close>
  succeeded, the route answers 500 and the player keeps the points no record accounts
  for. In every sequential execution from the empty or the seeded store in which no claim
  is torn in this way, and in which the sums the claims form stay in the range where the
  addition of Numbers is exact (at most \<open>2^53\<close>), each player's points equal the sum of
  the awards of the records that reference the player, after every event: start-up,
  registration, claim (completed, or failed at the lookup or at the save), and the two
  listings.
\<close>

theorem points_match_run:
  assumes "d0 = empty_state \<or> d0 = on_open empty_state"
    and "untorn tr d0" and "all_in_range tr d0"
  shows "points_match (run tr d0)"
proof -
  from assms(1) empty_state_ok on_open_keeps [of empty_state]
  have "ids_fresh d0 \<and> points_match d0" by auto
  with assms(2,3) run_keeps [of d0 tr] show ?thesis by simp
qed

theorem points_match_run_witness:
  "untorn trace0 empty_state
   \<and> all_in_range trace0 empty_state
   \<and> points_match (run trace0 empty_state)
   \<and> map points (users (run trace0 empty_state)) = [0, 0, 0, 0, 0, 0, 0, 0, 0, 0, 4]
   \<and> map pointsAwarded (history (run trace0 empty_state)) = [4]
   \<and> untorn [(env0, ClaimPoints [''userId'' \<mapsto> JOid 0])] (on_open empty_state)
   \<and> all_in_range [(env0, ClaimPoints [''userId'' \<mapsto> JOid 0])] (on_open empty_state)
   \<and> points_match (run [(env0, ClaimPoints [''userId'' \<mapsto> JOid 0])] (on_open empty_state))"
proof -
  have a: "untorn trace0 empty_state"
    by (rule untorn_no_create_error) (simp add: trace0_def env0_def env_save_fails_def)
  have b: "untorn [(env0, ClaimPoints [''userId'' \<mapsto> JOid 0])] (on_open empty_state)"
    by (rule untorn_no_create_error) (simp add: env0_def)
  have c: "map points (users (run trace0 empty_state)) = [0, 0, 0, 0, 0, 0, 0, 0, 0, 0, 4]"
    "map pointsAwarded (history (run trace0 empty_state)) = [4]"
    by (simp_all add: run_trace0)
  have d: "all_in_range [(env0, ClaimPoints [''userId'' \<mapsto> JOid 0])] (on_open empty_state)"
    by (simp add: empty_state_def on_open_def initialUsers_def env0_def User_findById_def
        castObjectId_def draw_points_sample)
  from points_match_run [of empty_state trace0, OF _ a all_in_range_trace0]
    points_match_run [of "on_open empty_state" _, OF _ b d] a b c d all_in_range_trace0
  show ?thesis by simp
qed

text \<open>
  Claim C2, as stated, fails: in the seeded store a claim for the first player whose
  record insert throws leaves that player with 4 points and an empty award history.
\<close>

theorem torn_claim_breaks_ledger:
  "points_match (on_open empty_state)
   \<and> post_claim_points env_create_fails [''userId'' \<mapsto> JOid 0] (on_open empty_state)
       = (run [(env_create_fails, ClaimPoints [''userId'' \<mapsto> JOid 0])] (on_open empty_state),
          Response 500 (Error ''connection closed''))
   \<and> map points (users (run [(env_create_fails, ClaimPoints [''userId'' \<mapsto> JOid 0])]
                            (on_open empty_state)))
       = [4, 0, 0, 0, 0, 0, 0, 0, 0, 0]
   \<and> history (run [(env_create_fails, ClaimPoints [''userId'' \<mapsto> JOid 0])]
                 (on_open empty_state)) = []
   \<and> \<not> points_match (run [(env_create_fails, ClaimPoints [''userId'' \<mapsto> JOid 0])]
                        (on_open empty_state))"
  by (simp add: points_match_def award_sum_def empty_state_def on_open_def initialUsers_def
      env_create_fails_def post_claim_points_def User_findById_def castObjectId_def
      User_save_def PointHistory_create_def draw_points_sample number_add_exact)

end
